theory Spec2Isabelle
  imports Main "HOL-Library.Word"
begin

unbundle bit_operations_syntax

section \<open>Shared data\<close>

text \<open>
  Go's \<^verbatim>\<open>[]byte\<close> is a list of 8-bit words; a nil slice and an empty slice are both
  \<open>[]\<close> (the code only ever compares them with \<^verbatim>\<open>bytes.Equal\<close> and \<^verbatim>\<open>len\<close>).
  A channel is identified by a number; \<open>None\<close> is the nil channel.
\<close>

type_synonym byte = "8 word"
type_synonym bytes = "byte list"
type_synonym chan = nat

subsection \<open>Big-endian integers (\<^verbatim>\<open>encoding/binary\<close>)\<close>

text \<open>
  \<^verbatim>\<open>binary.BigEndian.PutUint64\<close>, \<^verbatim>\<open>Uint64\<close>, \<^verbatim>\<open>PutUint16\<close> and \<^verbatim>\<open>Uint16\<close>, with the
  shifts of the library written out. \<^verbatim>\<open>binary.Read\<close> hands the decoders a buffer of
  exactly 8 (or 2) bytes, so the indices below are always in range where they are used.
\<close>

definition PutUint64 :: "64 word \<Rightarrow> bytes" where
  "PutUint64 v = [ucast (drop_bit 56 v), ucast (drop_bit 48 v), ucast (drop_bit 40 v),
     ucast (drop_bit 32 v), ucast (drop_bit 24 v), ucast (drop_bit 16 v),
     ucast (drop_bit 8 v), ucast v]"

definition Uint64 :: "bytes \<Rightarrow> 64 word" where
  "Uint64 b = ucast (b ! 7) OR push_bit 8 (ucast (b ! 6)) OR push_bit 16 (ucast (b ! 5)) OR
     push_bit 24 (ucast (b ! 4)) OR push_bit 32 (ucast (b ! 3)) OR push_bit 40 (ucast (b ! 2)) OR
     push_bit 48 (ucast (b ! 1)) OR push_bit 56 (ucast (b ! 0))"

definition PutUint16 :: "16 word \<Rightarrow> bytes" where
  "PutUint16 v = [ucast (drop_bit 8 v), ucast v]"

definition Uint16 :: "bytes \<Rightarrow> 16 word" where
  "Uint16 b = ucast (b ! 1) OR push_bit 8 (ucast (b ! 0))"

subsection \<open>Readers and writers (\<^verbatim>\<open>io\<close>, \<^verbatim>\<open>bytes.Buffer\<close>)\<close>

text \<open>
  An \<^verbatim>\<open>io.Writer\<close> is a state \<open>'w\<close> with a write operation that returns the error
  (its message) or nil, and the new state. A \<^verbatim>\<open>bytes.Buffer\<close> appends and never fails.
  \<^verbatim>\<open>io.ReadFull\<close> on a buffer of unread bytes returns EOF when nothing is left,
  "unexpected EOF" when fewer than \<open>n\<close> bytes are left, and otherwise the next \<open>n\<close>
  bytes with the rest.
\<close>

type_synonym 'w io_write = "'w \<Rightarrow> bytes \<Rightarrow> string option \<times> 'w"

definition Buffer_Write :: "bytes io_write" where
  "Buffer_Write buf p = (None, buf @ p)"

definition ReadFull :: "bytes \<Rightarrow> nat \<Rightarrow> string + (bytes \<times> bytes)" where
  "ReadFull buf n =
     (if n = 0 then Inr ([], buf)
      else if buf = [] then Inl ''EOF''
      else if length buf < n then Inl ''unexpected EOF''
      else Inr (take n buf, drop n buf))"

section \<open>Message (message.go)\<close>

text \<open>
  \<^verbatim>\<open>type MessageID [MsgIdLength]byte\<close> with \<^verbatim>\<open>MsgIdLength = 16\<close>: an array of exactly
  16 bytes.
\<close>

definition MsgIdLength :: nat where
  "MsgIdLength = 16"

typedef MessageID = "{xs :: bytes. length xs = 16}"
  by (rule exI [of _ "replicate 16 0"]) simp

text \<open>
  The Message struct. \<open>Timestamp\<close> is an \<^verbatim>\<open>int64\<close> (read it with \<open>sint\<close>),
  \<open>Attempts\<close> a \<^verbatim>\<open>uint16\<close>. The field \<^verbatim>\<open>Id\<close> is called \<open>Id_msg\<close> here, as
  \<open>Id\<close> is the identity relation of HOL. The three channels are nil until the read loop
  sets them.
\<close>

record Message =
  Id_msg :: MessageID
  Body :: bytes
  Timestamp :: "64 word"
  Attempts :: "16 word"
  exitChan_msg :: "chan option"
  cmdChan_msg :: "chan option"
  responseChan_msg :: "chan option"

text \<open>
  \<^verbatim>\<open>Message.Write\<close>: timestamp, attempts, id, body, each write checked for an error.
\<close>

definition Message_Write :: "'w io_write \<Rightarrow> Message \<Rightarrow> 'w \<Rightarrow> string option \<times> 'w" where
  "Message_Write wr m w =
     (case wr w (PutUint64 (Timestamp m)) of
        (Some err, w1) \<Rightarrow> (Some err, w1)
      | (None, w1) \<Rightarrow>
          (case wr w1 (PutUint16 (Attempts m)) of
             (Some err, w2) \<Rightarrow> (Some err, w2)
           | (None, w2) \<Rightarrow>
               (case wr w2 (Rep_MessageID (Id_msg m)) of
                  (Some err, w3) \<Rightarrow> (Some err, w3)
                | (None, w3) \<Rightarrow>
                    (case wr w3 (Body m) of
                       (Some err, w4) \<Rightarrow> (Some err, w4)
                     | (None, w4) \<Rightarrow> (None, w4)))))"

text \<open>\<^verbatim>\<open>Message.EncodeBytes\<close>: \<^verbatim>\<open>Write\<close> into a fresh \<^verbatim>\<open>bytes.Buffer\<close>.\<close>

definition EncodeBytes :: "Message \<Rightarrow> string + bytes" where
  "EncodeBytes m =
     (case Message_Write Buffer_Write m [] of
        (Some err, buf) \<Rightarrow> Inl err
      | (None, buf) \<Rightarrow> Inr buf)"

text \<open>
  \<^verbatim>\<open>DecodeMessage\<close>: 8 bytes of timestamp, 2 of attempts, 16 of id (\<^verbatim>\<open>io.ReadFull\<close> into
  \<^verbatim>\<open>msg.Id[:]\<close>), and \<^verbatim>\<open>ioutil.ReadAll\<close> of what is left as the body.
\<close>

definition DecodeMessage :: "bytes \<Rightarrow> string + Message" where
  "DecodeMessage byteBuf =
     (case ReadFull byteBuf 8 of
        Inl err \<Rightarrow> Inl err
      | Inr (tsb, buf1) \<Rightarrow>
          (case ReadFull buf1 2 of
             Inl err \<Rightarrow> Inl err
           | Inr (atb, buf2) \<Rightarrow>
               (case ReadFull buf2 MsgIdLength of
                  Inl err \<Rightarrow> Inl err
                | Inr (idb, body) \<Rightarrow>
                    Inr \<lparr>Id_msg = Abs_MessageID idb, Body = body,
                         Timestamp = Uint64 tsb, Attempts = Uint16 atb,
                         exitChan_msg = None, cmdChan_msg = None,
                         responseChan_msg = None\<rparr>)))"

section \<open>Protocol constants, commands and errors\<close>

text \<open>
  Modelled from the spec: the frame-type constants are declared outside src/; the spec
  gives them as response (0), error (1), message (2). A frame type is an \<^verbatim>\<open>int32\<close>.
\<close>

definition FrameTypeResponse :: "32 word" where
  "FrameTypeResponse = 0"

definition FrameTypeError :: "32 word" where
  "FrameTypeError = 1"

definition FrameTypeMessage :: "32 word" where
  "FrameTypeMessage = 2"

text \<open>
  Modelled from the spec: the connection states are \<^verbatim>\<open>int32\<close> constants declared
  outside src/; the spec names three, and the code only ever stores and compares these
  three distinct values.
\<close>

datatype State = StateInit | StateDisconnected | StateConnected

text \<open>
  Modelled from the spec: the command constructors (\<^verbatim>\<open>Identify\<close>, \<^verbatim>\<open>Publish\<close>,
  \<^verbatim>\<open>MultiPublish\<close>, \<^verbatim>\<open>Nop\<close>) are declared outside src/. A command is identified by
  the constructor call that built it.
\<close>

datatype Command =
    Cmd_Identify
  | Cmd_Publish string bytes
  | Cmd_MultiPublish string "bytes list"
  | Cmd_Nop

text \<open>
  Go error values: the two sentinels of the Writer, the identify error with its reason,
  the formatted error of the read loop, and any other error by its message.
\<close>

datatype error =
    ErrNotConnected
  | ErrStopped
  | ErrIdentify string
  | ErrUnknownFrameType "32 word"
  | ErrorString string


text \<open>Run-time panics the modelled code can raise.\<close>

datatype panic = IndexOutOfRange | NilPointer | NegativeWaitGroup

text \<open>
  What one pass of a \<^verbatim>\<open>for\<close> loop does next: go on with the loop, or jump to the
  \<^verbatim>\<open>exit\<close> label.
\<close>

datatype 'a step = Continue 'a | GotoExit 'a

text \<open>\<^verbatim>\<open>[]byte("...")\<close> and \<^verbatim>\<open>string(data)\<close>.\<close>

definition bytes_of :: "string \<Rightarrow> bytes" where
  "bytes_of s = map of_char s"

definition string_of :: "bytes \<Rightarrow> string" where
  "string_of b = map (\<lambda>x. char_of (unat x)) b"

section \<open>Conn (conn.go)\<close>

text \<open>
  The result of one \<^verbatim>\<open>ReadUnpackedResponse\<close>: an error (its message) or a frame type
  with its payload. \<^verbatim>\<open>ReadResponse\<close> and \<^verbatim>\<open>UnpackResponse\<close> are declared outside
  src/, so the results of the reads are inputs of the model.
\<close>

type_synonym read_result = "string + (32 word \<times> bytes)"

text \<open>The callbacks a Conn invokes on its owner, logged in the order of the calls.\<close>

datatype callback =
    ResponseCB bytes
  | ErrorCB bytes
  | MessageCB Message
  | IOErrorCB error
  | HeartbeatCB
  | CloseCB

text \<open>
  What \<^verbatim>\<open>c.r\<close> and \<^verbatim>\<open>c.w\<close> can be: nil, the socket, the TLS connection, and the
  compressing and buffering wrappers around either.
\<close>

datatype layer = NilRW | Socket | TLSConn | FlateRW layer | SnappyRW layer | BufioReader layer

record IdentifyResponse =
  MaxRdyCount :: "64 word"
  TLSv1 :: bool
  Deflate :: bool
  Snappy :: bool

text \<open>
  The Conn struct, as far as the modelled functions read or write it. The five 64-bit
  fields are \<^verbatim>\<open>int64\<close> (atomic adds wrap around, as \<open>+\<close> on words does).
  \<open>netConn\<close> is the embedded \<^verbatim>\<open>net.Conn\<close>: \<open>None\<close> is nil, \<open>Some b\<close> a socket that
  is closed iff \<open>b\<close>. \<open>tlsConn\<close> and \<open>flateWriter\<close> say whether the pointer is non-nil.
  A channel that is only ever closed is the flag "closed". Fields that clash with a
  Writer's or with a variable name carry the suffix \<open>_c\<close>. \<open>calls\<close> logs the callback
  invocations and \<open>written\<close> the commands that \<^verbatim>\<open>SendCommand\<close> wrote without error.
\<close>

record Conn =
  addr :: string
  messagesInFlight :: "64 word"
  maxRdyCount :: "64 word"
  rdyCount :: "64 word"
  lastRdyCount :: "64 word"
  lastMsgTimestamp :: "64 word"
  backoffCounter :: "32 word"
  netConn :: "bool option"
  tlsConn :: bool
  r_c :: layer
  w_c :: layer
  flateWriter :: bool
  finishedMessages :: chan
  cmdChan :: chan
  exitChan_c :: chan
  exitChan_closed :: bool
  stopFlag_c :: "32 word"
  stopper :: bool
  wg_c :: nat
  readLoopRunning :: "32 word"
  calls :: "callback list"
  written :: "Command list"

text \<open>
  \<^verbatim>\<open>NewConn\<close> (topic and channel left out): the clock reading and the three channels
  it makes are parameters.
\<close>

definition NewConn :: "string \<Rightarrow> 64 word \<Rightarrow> chan \<Rightarrow> chan \<Rightarrow> chan \<Rightarrow> Conn" where
  "NewConn address now fm cc ec =
     \<lparr>addr = address, messagesInFlight = 0, maxRdyCount = 2500, rdyCount = 0, lastRdyCount = 0,
      lastMsgTimestamp = now, backoffCounter = 0, netConn = None, tlsConn = False,
      r_c = NilRW, w_c = NilRW, flateWriter = False, finishedMessages = fm,
      cmdChan = cc, exitChan_c = ec, exitChan_closed = False, stopFlag_c = 0,
      stopper = False, wg_c = 0, readLoopRunning = 0, calls = [], written = []\<rparr>"

text \<open>
  \<^verbatim>\<open>Conn.Close\<close>: nothing when the dial never succeeded, else the socket is closed.
\<close>

definition Conn_Close :: "Conn \<Rightarrow> Conn" where
  "Conn_Close c = (case netConn c of None \<Rightarrow> c | Some b \<Rightarrow> c\<lparr>netConn := Some True\<rparr>)"

text \<open>
  \<^verbatim>\<open>Conn.SendCommand\<close>: serialise the command, write it, flush the compressor. The
  parameter \<open>res\<close> is the first error of these steps, if any (the transport is the
  environment's).
\<close>

definition SendCommand :: "Conn \<Rightarrow> Command \<Rightarrow> string option \<Rightarrow> string option \<times> Conn" where
  "SendCommand c command res =
     (case res of
        Some err \<Rightarrow> (Some err, c)
      | None \<Rightarrow> (None, c\<lparr>written := written c @ [command]\<rparr>))"

text \<open>
  \<^verbatim>\<open>Conn.close\<close>: once only (\<^verbatim>\<open>stopper.Do\<close>), close the exit channel, add the cleanup
  goroutine to the wait group and start it and \<^verbatim>\<open>waitForCleanup\<close> (the two goroutines
  themselves are not modelled).
\<close>

definition Conn_close :: "Conn \<Rightarrow> Conn" where
  "Conn_close c =
     (if stopper c then c
      else c\<lparr>stopper := True, exitChan_closed := True, wg_c := wg_c c + 1\<rparr>)"

subsection \<open>The read loop\<close>

text \<open>
  What the environment gives one pass of \<^verbatim>\<open>readLoop\<close>: the result of its
  \<^verbatim>\<open>ReadUnpackedResponse\<close>, the result of the \<^verbatim>\<open>SendCommand\<close> it makes when the frame
  is a heartbeat, and the reading of the clock it takes when the frame is a message.
\<close>

record pass_env =
  read_res :: read_result
  write_res :: "string option"
  now :: "64 word"

text \<open>
  The body of the loop of \<^verbatim>\<open>readLoop\<close>, after the test of the stop flag. A message is
  given the three channels of the connection before the counters are updated and the
  message callback is called.
\<close>

definition readLoop_body :: "Conn \<Rightarrow> pass_env \<Rightarrow> Conn step" where
  "readLoop_body c env =
     (case read_res env of
        Inl err \<Rightarrow> GotoExit (c\<lparr>calls := calls c @ [IOErrorCB (ErrorString err)]\<rparr>)
      | Inr (frameType, data) \<Rightarrow>
          if frameType = FrameTypeResponse \<and> data = bytes_of ''_heartbeat_'' then
            (let c1 = c\<lparr>calls := calls c @ [HeartbeatCB]\<rparr> in
             case SendCommand c1 Cmd_Nop (write_res env) of
               (Some err, c2) \<Rightarrow>
                 GotoExit (c2\<lparr>calls := calls c2 @ [IOErrorCB (ErrorString err)]\<rparr>)
             | (None, c2) \<Rightarrow> Continue c2)
          else if frameType = FrameTypeResponse then
            Continue (c\<lparr>calls := calls c @ [ResponseCB data]\<rparr>)
          else if frameType = FrameTypeMessage then
            (case DecodeMessage data of
               Inl err \<Rightarrow> GotoExit (c\<lparr>calls := calls c @ [IOErrorCB (ErrorString err)]\<rparr>)
             | Inr msg \<Rightarrow>
                 (let msg1 = msg\<lparr>cmdChan_msg := Some (cmdChan c),
                        responseChan_msg := Some (finishedMessages c),
                        exitChan_msg := Some (exitChan_c c)\<rparr>;
                      c1 = c\<lparr>rdyCount := rdyCount c - 1\<rparr>;
                      c2 = c1\<lparr>messagesInFlight := messagesInFlight c1 + 1\<rparr>;
                      c3 = c2\<lparr>lastMsgTimestamp := now env\<rparr>
                  in Continue (c3\<lparr>calls := calls c3 @ [MessageCB msg1]\<rparr>)))
          else if frameType = FrameTypeError then
            Continue (c\<lparr>calls := calls c @ [ErrorCB data]\<rparr>)
          else
            Continue (c\<lparr>calls := calls c @ [IOErrorCB (ErrUnknownFrameType frameType)]\<rparr>))"

text \<open>
  The code at the \<^verbatim>\<open>exit\<close> label of \<^verbatim>\<open>readLoop\<close>: the close is started here only when
  no message is in flight; \<^verbatim>\<open>wg.Done()\<close> on a zero counter is a panic.
\<close>

definition readLoop_exit :: "Conn \<Rightarrow> panic + Conn" where
  "readLoop_exit c =
     (let c1 = c\<lparr>readLoopRunning := 0\<rparr>;
          c2 = (if messagesInFlight c1 = 0 then Conn_close c1 else c1)
      in if wg_c c2 = 0 then Inl NegativeWaitGroup
         else Inr (c2\<lparr>wg_c := wg_c c2 - 1\<rparr>))"

text \<open>
  \<^verbatim>\<open>readLoop\<close> over the passes the environment gives it: \<open>GotoExit\<close> with the state
  after the exit code when the loop has ended, \<open>Continue\<close> when it is in its next read.
\<close>

fun readLoop :: "Conn \<Rightarrow> pass_env list \<Rightarrow> panic + Conn step" where
  "readLoop c [] =
     (if stopFlag_c c = 1 then map_sum id GotoExit (readLoop_exit c) else Inr (Continue c))"
| "readLoop c (env # envs) =
     (if stopFlag_c c = 1 then map_sum id GotoExit (readLoop_exit c)
      else
        (case readLoop_body c env of
           GotoExit c1 \<Rightarrow> map_sum id GotoExit (readLoop_exit c1)
         | Continue c1 \<Rightarrow> readLoop c1 envs))"

subsection \<open>The handshake\<close>

text \<open>
  During the handshake the reads are taken one after the other from the results the
  environment gives; a read has a deadline, so with nothing more to come it fails.
\<close>

definition ReadUnpackedResponse :: "read_result list \<Rightarrow> read_result \<times> read_result list" where
  "ReadUnpackedResponse reads =
     (case reads of
        [] \<Rightarrow> (Inl ''i/o timeout'', [])
      | r # rest \<Rightarrow> (r, rest))"

text \<open>
  \<^verbatim>\<open>upgradeTLS\<close>: \<open>handshake\<close> is the result of \<^verbatim>\<open>c.tlsConn.Handshake()\<close>.
\<close>

definition upgradeTLS ::
  "Conn \<Rightarrow> string option \<Rightarrow> read_result list \<Rightarrow> string option \<times> Conn \<times> read_result list" where
  "upgradeTLS c handshake reads =
     (let c1 = c\<lparr>tlsConn := True\<rparr> in
      case handshake of
        Some err \<Rightarrow> (Some err, c1, reads)
      | None \<Rightarrow>
          (let c2 = c1\<lparr>r_c := TLSConn, w_c := TLSConn\<rparr> in
           case ReadUnpackedResponse reads of
             (Inl err, rest) \<Rightarrow> (Some err, c2, rest)
           | (Inr (frameType, data), rest) \<Rightarrow>
               if frameType \<noteq> FrameTypeResponse \<or> data \<noteq> bytes_of ''OK''
               then (Some ''invalid response from TLS upgrade'', c2, rest)
               else (None, c2, rest)))"

definition upgradeDeflate ::
  "Conn \<Rightarrow> read_result list \<Rightarrow> string option \<times> Conn \<times> read_result list" where
  "upgradeDeflate c reads =
     (let conn = (if tlsConn c then TLSConn else Socket);
          c1 = c\<lparr>r_c := FlateRW conn, flateWriter := True, w_c := FlateRW conn\<rparr> in
      case ReadUnpackedResponse reads of
        (Inl err, rest) \<Rightarrow> (Some err, c1, rest)
      | (Inr (frameType, data), rest) \<Rightarrow>
          if frameType \<noteq> FrameTypeResponse \<or> data \<noteq> bytes_of ''OK''
          then (Some ''invalid response from Deflate upgrade'', c1, rest)
          else (None, c1, rest))"

definition upgradeSnappy ::
  "Conn \<Rightarrow> read_result list \<Rightarrow> string option \<times> Conn \<times> read_result list" where
  "upgradeSnappy c reads =
     (let conn = (if tlsConn c then TLSConn else Socket);
          c1 = c\<lparr>r_c := SnappyRW conn, w_c := SnappyRW conn\<rparr> in
      case ReadUnpackedResponse reads of
        (Inl err, rest) \<Rightarrow> (Some err, c1, rest)
      | (Inr (frameType, data), rest) \<Rightarrow>
          if frameType \<noteq> FrameTypeResponse \<or> data \<noteq> bytes_of ''OK''
          then (Some ''invalid response from Snappy upgrade'', c1, rest)
          else (None, c1, rest))"

text \<open>
  The environment of \<^verbatim>\<open>identify\<close>: the result of the command constructor
  \<^verbatim>\<open>Identify(ci)\<close>, of the \<^verbatim>\<open>SendCommand\<close>, of \<^verbatim>\<open>json.Unmarshal\<close> on the payload, and
  of the TLS handshake.
\<close>

record identify_env =
  identify_cmd :: "string + Command"
  send_res :: "string option"
  unmarshal :: "bytes \<Rightarrow> string + IdentifyResponse"
  tls_handshake :: "string option"

text \<open>
  The three upgrades of \<^verbatim>\<open>identify\<close>, in the order of the code: each only when the
  server granted it, each ending the sequence with its error.
\<close>

definition identify_upgrades ::
  "Conn \<Rightarrow> IdentifyResponse \<Rightarrow> string option \<Rightarrow> read_result list \<Rightarrow>
     string option \<times> Conn \<times> read_result list" where
  "identify_upgrades c resp handshake reads =
     (case (if TLSv1 resp then upgradeTLS c handshake reads else (None, c, reads)) of
        (Some err, c1, reads1) \<Rightarrow> (Some err, c1, reads1)
      | (None, c1, reads1) \<Rightarrow>
          (case (if Deflate resp then upgradeDeflate c1 reads1 else (None, c1, reads1)) of
             (Some err, c2, reads2) \<Rightarrow> (Some err, c2, reads2)
           | (None, c2, reads2) \<Rightarrow>
               (if Snappy resp then upgradeSnappy c2 reads2 else (None, c2, reads2))))"

text \<open>
  \<^verbatim>\<open>identify\<close>: a panic (\<^verbatim>\<open>data[0]\<close> on an empty payload), an error, or the response
  (nil when the server did not answer with JSON); with the Conn and the reads left.
\<close>

definition identify ::
  "Conn \<Rightarrow> identify_env \<Rightarrow> read_result list \<Rightarrow>
     (panic + error + IdentifyResponse option) \<times> Conn \<times> read_result list" where
  "identify c env reads =
     (case identify_cmd env of
        Inl err \<Rightarrow> (Inr (Inl (ErrIdentify err)), c, reads)
      | Inr command \<Rightarrow>
          (case SendCommand c command (send_res env) of
             (Some err, c1) \<Rightarrow> (Inr (Inl (ErrIdentify err)), c1, reads)
           | (None, c1) \<Rightarrow>
               (case ReadUnpackedResponse reads of
                  (Inl err, rest) \<Rightarrow> (Inr (Inl (ErrIdentify err)), c1, rest)
                | (Inr (frameType, data), rest) \<Rightarrow>
                    if frameType = FrameTypeError
                    then (Inr (Inl (ErrIdentify (string_of data))), c1, rest)
                    else
                      (case data of
                         [] \<Rightarrow> (Inl IndexOutOfRange, c1, rest)
                       | b # bs \<Rightarrow>
                           if b \<noteq> of_char CHR ''{'' then (Inr (Inr None), c1, rest)
                           else
                             (case unmarshal env data of
                                Inl err \<Rightarrow> (Inr (Inl (ErrIdentify err)), c1, rest)
                              | Inr resp \<Rightarrow>
                                  (let c2 = c1\<lparr>maxRdyCount := MaxRdyCount resp\<rparr> in
                                   case identify_upgrades c2 resp (tls_handshake env) rest of
                                     (Some err, c3, rest1) \<Rightarrow>
                                       (Inr (Inl (ErrIdentify err)), c3, rest1)
                                   | (None, c3, rest1) \<Rightarrow>
                                       (Inr (Inr (Some resp)),
                                        c3\<lparr>r_c := BufioReader (r_c c3)\<rparr>, rest1)))))))"

text \<open>
  \<^verbatim>\<open>Conn.Connect\<close>: \<open>dial\<close> is the result of \<^verbatim>\<open>net.DialTimeout\<close> and \<open>magic\<close> that of
  writing the magic bytes. When the handshake has succeeded the two loops are added to
  the wait group and started.
\<close>

definition Connect ::
  "Conn \<Rightarrow> string option \<Rightarrow> string option \<Rightarrow> identify_env \<Rightarrow> read_result list \<Rightarrow>
     (panic + error + IdentifyResponse option) \<times> Conn \<times> read_result list" where
  "Connect c dial magic env reads =
     (case dial of
        Some err \<Rightarrow> (Inr (Inl (ErrorString err)), c, reads)
      | None \<Rightarrow>
          (let c1 = c\<lparr>netConn := Some False, r_c := Socket, w_c := Socket\<rparr> in
           case magic of
             Some err \<Rightarrow>
               (Inr (Inl (ErrorString
                  (''['' @ addr c1 @ ''] failed to write magic - '' @ err))),
                Conn_Close c1, reads)
           | None \<Rightarrow>
               (case identify c1 env reads of
                  (Inl p, c2, rest) \<Rightarrow> (Inl p, c2, rest)
                | (Inr (Inl err), c2, rest) \<Rightarrow> (Inr (Inl err), c2, rest)
                | (Inr (Inr resp), c2, rest) \<Rightarrow>
                    (Inr (Inr resp),
                     c2\<lparr>wg_c := wg_c c2 + 2, readLoopRunning := 1\<rparr>, rest))))"

section \<open>Writer (the publisher)\<close>

text \<open>
  A WriterTransaction. \<open>Args\<close> holds \<^verbatim>\<open>interface{}\<close> values, kept as opaque handles.
  Every call of \<^verbatim>\<open>sendCommandAsync\<close> allocates a transaction of its own, so no two
  entries of the model alias and the transactions are kept by value.
\<close>

record WriterTransaction =
  cmd :: Command
  doneChan :: "chan option"
  FrameType :: "32 word"
  Data :: bytes
  Error :: "error option"
  Args :: "nat list"

text \<open>
  The Writer struct, as far as the modelled functions read or write it (the
  configuration copied into a new Conn is left out). \<open>exitChan\<close> is only ever closed:
  the flag says whether it is. \<open>wg\<close> is the counter of the wait group: the number of
  router goroutines that have not called \<^verbatim>\<open>Done\<close>. \<open>closeWaiting\<close> says that the
  goroutine started by \<^verbatim>\<open>close\<close> waits for the wait group. Two logs record effects:
  \<open>resolved\<close> holds the transactions whose result fields have been written, in the order
  of the writes and with the fields as written; \<open>delivered\<close> holds the sends on done
  channels made by \<^verbatim>\<open>finish\<close> (receivers are taken to be there).
\<close>

record Writer =
  conn :: "Conn option"
  transactions :: "WriterTransaction list"
  state :: State
  stopFlag :: int
  exitChan :: bool
  wg :: nat
  concurrentWriters :: int
  closeWaiting :: bool
  resolved :: "WriterTransaction list"
  delivered :: "(chan \<times> WriterTransaction) list"

text \<open>\<^verbatim>\<open>NewWriter\<close>: every field at its zero value, the channels open.\<close>

definition NewWriter :: Writer where
  "NewWriter =
     \<lparr>conn = None, transactions = [], state = StateInit, stopFlag = 0, exitChan = False,
      wg = 0, concurrentWriters = 0, closeWaiting = False, resolved = [], delivered = []\<rparr>"

text \<open>\<^verbatim>\<open>WriterTransaction.finish\<close>: send the transaction on its done channel, if any.\<close>

definition finish :: "WriterTransaction \<Rightarrow> Writer \<Rightarrow> Writer" where
  "finish t w =
     (case doneChan t of
        None \<Rightarrow> w
      | Some ch \<Rightarrow> w\<lparr>delivered := delivered w @ [(ch, t)]\<rparr>)"

text \<open>
  The goroutine of \<^verbatim>\<open>close\<close>: once the wait group is at zero, store \<^verbatim>\<open>StateInit\<close>.
  The model runs it as soon as the counter is zero.
\<close>

definition wg_Wait_reset :: "Writer \<Rightarrow> Writer" where
  "wg_Wait_reset w =
     (if closeWaiting w \<and> wg w = 0
      then w\<lparr>state := StateInit, closeWaiting := False\<rparr>
      else w)"

text \<open>
  \<^verbatim>\<open>Writer.close\<close>: compare-and-swap Connected to Disconnected, close the connection
  (a nil \<^verbatim>\<open>w.conn\<close> is a nil-pointer panic), start the waiting goroutine.
\<close>

definition Writer_close :: "Writer \<Rightarrow> panic + Writer" where
  "Writer_close w =
     (if state w \<noteq> StateConnected then Inr w
      else
        (case conn w of
           None \<Rightarrow> Inl NilPointer
         | Some c \<Rightarrow>
             Inr (wg_Wait_reset
               (w\<lparr>state := StateDisconnected, conn := Some (Conn_Close c),
                  closeWaiting := True\<rparr>))))"

text \<open>
  \<^verbatim>\<open>Writer.connect\<close>. The parameter is what \<^verbatim>\<open>conn.Connect()\<close> on the new Conn gives:
  its error or nil, and the Conn as the call leaves it.
\<close>

definition connect :: "Writer \<Rightarrow> error option \<times> Conn \<Rightarrow> error option \<times> Writer" where
  "connect w connecting =
     (if stopFlag w = 1 then (Some ErrStopped, w)
      else if state w \<noteq> StateInit then (Some ErrNotConnected, w)
      else
        (let w1 = w\<lparr>state := StateConnected\<rparr> in
         case connecting of
           (Some err, c) \<Rightarrow> (Some err, w1\<lparr>state := StateInit\<rparr>)
         | (None, c) \<Rightarrow> (None, w1\<lparr>conn := Some c, wg := wg w1 + 1\<rparr>)))"

text \<open>
  How a call of \<^verbatim>\<open>sendCommandAsync\<close> stands when the model leaves it: it has returned
  an error, or it is parked in its \<^verbatim>\<open>select\<close>, offering its transaction on
  \<^verbatim>\<open>transactionChan\<close> with its increment of \<^verbatim>\<open>concurrentWriters\<close> still in place.
\<close>

datatype send_outcome = Failed error | Parked WriterTransaction

text \<open>
  \<^verbatim>\<open>sendCommandAsync\<close>. The channel is unbuffered: a send is taken only by the router
  goroutine, which exists while \<open>wg\<close> is positive. When the exit channel is closed and
  no router exists the \<^verbatim>\<open>select\<close> returns \<^verbatim>\<open>ErrStopped\<close>; when both cases are ready
  the Go run time picks one (\<open>pick\<close>: the exit case).
\<close>

definition sendCommandAsync ::
  "Writer \<Rightarrow> Command \<Rightarrow> chan option \<Rightarrow> nat list \<Rightarrow> error option \<times> Conn \<Rightarrow> bool \<Rightarrow>
     send_outcome \<times> Writer" where
  "sendCommandAsync w command dc args connecting pick =
     (let w1 = w\<lparr>concurrentWriters := concurrentWriters w + 1\<rparr> in
      case (if state w1 \<noteq> StateConnected then connect w1 connecting else (None, w1)) of
        (Some err, w2) \<Rightarrow>
          (Failed err, w2\<lparr>concurrentWriters := concurrentWriters w2 - 1\<rparr>)
      | (None, w2) \<Rightarrow>
          (let t = \<lparr>cmd = command, doneChan = dc, FrameType = - 1, Data = [],
                    Error = None, Args = args\<rparr> in
           if exitChan w2 \<and> (wg w2 = 0 \<or> pick)
           then (Failed ErrStopped, w2\<lparr>concurrentWriters := concurrentWriters w2 - 1\<rparr>)
           else (Parked t, w2)))"

text \<open>
  The end of a parked call whose transaction the router has received: it returns nil and
  the deferred decrement runs.
\<close>

definition sendCommandAsync_return :: "Writer \<Rightarrow> Writer" where
  "sendCommandAsync_return w = w\<lparr>concurrentWriters := concurrentWriters w - 1\<rparr>"



text \<open>
  The synchronous calls return a frame type, data and an error, or wait on their private
  done channel \<open>dc\<close> (a fresh channel) for the transaction to be resolved.
\<close>

datatype sync_outcome = Done "32 word" bytes "error option" | Awaiting WriterTransaction


text \<open>What a waiting \<^verbatim>\<open>sendCommand\<close> returns once its transaction arrives on \<open>dc\<close>.\<close>

definition sendCommand_result :: "WriterTransaction \<Rightarrow> sync_outcome" where
  "sendCommand_result t = Done (FrameType t) (Data t) (Error t)"



subsection \<open>The router\<close>

text \<open>
  \<^verbatim>\<open>popTransaction\<close>: \<^verbatim>\<open>w.transactions[0]\<close> on an empty slice is an index-out-of-range
  panic.
\<close>

definition popTransaction :: "32 word \<Rightarrow> bytes \<Rightarrow> Writer \<Rightarrow> panic + Writer" where
  "popTransaction frameType data w =
     (case transactions w of
        [] \<Rightarrow> Inl IndexOutOfRange
      | t # rest \<Rightarrow>
          (let t' = t\<lparr>FrameType := frameType, Data := data, Error := None\<rparr> in
           Inr (finish t' (w\<lparr>transactions := rest, resolved := resolved w @ [t']\<rparr>))))"

text \<open>
  What the \<^verbatim>\<open>select\<close> of the router can take: a transaction from a parked sender (with
  the result of the \<^verbatim>\<open>SendCommand\<close> that follows), a response or an error frame handed
  over by the read loop's callbacks, a heartbeat, an IO error, the close callback, the
  closed exit channel.
\<close>

datatype event =
    Transaction WriterTransaction "string option"
  | Response bytes
  | ErrorFrame bytes
  | Heartbeat
  | IOError error
  | CloseSignal
  | ExitSignal

text \<open>
  One pass through the \<^verbatim>\<open>select\<close> of \<^verbatim>\<open>router\<close>. The exit case is ready only when the
  exit channel is closed; an event whose case is not ready is not taken.
\<close>

definition router_step :: "Writer \<Rightarrow> event \<Rightarrow> panic + Writer step" where
  "router_step w e =
     (case e of
        Transaction t res \<Rightarrow>
          (let w1 = w\<lparr>transactions := transactions w @ [t]\<rparr> in
           case conn w1 of
             None \<Rightarrow> Inl NilPointer
           | Some c \<Rightarrow>
               (case SendCommand c (cmd t) res of
                  (Some err, c') \<Rightarrow>
                    (case Writer_close (w1\<lparr>conn := Some c'\<rparr>) of
                       Inl p \<Rightarrow> Inl p
                     | Inr w2 \<Rightarrow> Inr (Continue w2))
                | (None, c') \<Rightarrow> Inr (Continue (w1\<lparr>conn := Some c'\<rparr>))))
      | Response data \<Rightarrow>
          (case popTransaction FrameTypeResponse data w of
             Inl p \<Rightarrow> Inl p
           | Inr w1 \<Rightarrow> Inr (Continue w1))
      | ErrorFrame data \<Rightarrow>
          (case popTransaction FrameTypeError data w of
             Inl p \<Rightarrow> Inl p
           | Inr w1 \<Rightarrow> Inr (Continue w1))
      | Heartbeat \<Rightarrow> Inr (Continue w)
      | IOError err \<Rightarrow>
          (case Writer_close w of
             Inl p \<Rightarrow> Inl p
           | Inr w1 \<Rightarrow> Inr (Continue w1))
      | CloseSignal \<Rightarrow> Inr (GotoExit w)
      | ExitSignal \<Rightarrow> (if exitChan w then Inr (GotoExit w) else Inr (Continue w)))"

text \<open>
  The loop of \<^verbatim>\<open>router\<close> over the events it takes. The result is a panic, or the state
  with a flag: \<open>True\<close> when the loop has jumped to \<^verbatim>\<open>exit\<close>, \<open>False\<close> when it waits in
  its \<^verbatim>\<open>select\<close> for more.
\<close>

fun router_loop :: "Writer \<Rightarrow> event list \<Rightarrow> panic + (Writer \<times> bool)" where
  "router_loop w [] = Inr (w, False)"
| "router_loop w (e # es) =
     (case router_step w e of
        Inl p \<Rightarrow> Inl p
      | Inr (Continue w1) \<Rightarrow> router_loop w1 es
      | Inr (GotoExit w1) \<Rightarrow> Inr (w1, True))"











subsection \<open>Reading a run of the router\<close>

text \<open>
  From the events given to the loop: the transactions it receives, the frames handed to
  it (with the frame type the router passes to \<^verbatim>\<open>popTransaction\<close>), and the events
  it takes before it jumps to \<^verbatim>\<open>exit\<close>. \<open>resolve\<close> is what a frame writes into a
  transaction, and \<open>deliveries\<close> the sends that \<^verbatim>\<open>finish\<close> makes for a list of
  transactions.
\<close>

fun enqueued :: "event list \<Rightarrow> WriterTransaction list" where
  "enqueued [] = []"
| "enqueued (Transaction t res # es) = t # enqueued es"
| "enqueued (e # es) = enqueued es"

fun frames :: "event list \<Rightarrow> (32 word \<times> bytes) list" where
  "frames [] = []"
| "frames (Response data # es) = (FrameTypeResponse, data) # frames es"
| "frames (ErrorFrame data # es) = (FrameTypeError, data) # frames es"
| "frames (e # es) = frames es"

definition resolve :: "WriterTransaction \<Rightarrow> 32 word \<times> bytes \<Rightarrow> WriterTransaction" where
  "resolve t f = t\<lparr>FrameType := fst f, Data := snd f, Error := None\<rparr>"

definition exits :: "Writer \<Rightarrow> event \<Rightarrow> bool" where
  "exits w e = (e = CloseSignal \<or> (e = ExitSignal \<and> exitChan w))"

definition taken :: "Writer \<Rightarrow> event list \<Rightarrow> event list" where
  "taken w es = takeWhile (\<lambda>e. \<not> exits w e) es"

definition deliveries :: "WriterTransaction list \<Rightarrow> (chan \<times> WriterTransaction) list" where
  "deliveries ts = concat (map (\<lambda>t. case doneChan t of None \<Rightarrow> [] | Some ch \<Rightarrow> [(ch, t)]) ts)"

text \<open>
  The protocol precondition of the router: every response or error frame answers a
  command sent before it. \<open>n\<close> counts the commands sent and not yet answered.
\<close>

fun answers_sent :: "nat \<Rightarrow> event list \<Rightarrow> bool" where
  "answers_sent n [] = True"
| "answers_sent n (Transaction t res # es) = answers_sent (Suc n) es"
| "answers_sent n (Response data # es) = (0 < n \<and> answers_sent (n - 1) es)"
| "answers_sent n (ErrorFrame data # es) = (0 < n \<and> answers_sent (n - 1) es)"
| "answers_sent n (e # es) = answers_sent n es"

subsection \<open>A run to evaluate\<close>

text \<open>
  A Conn as \<^verbatim>\<open>Connect\<close> leaves it after a handshake without upgrades, a Writer
  connected to it by \<^verbatim>\<open>connect\<close>, three publish transactions with done channels
  1, 2 and 3, and a run of the router in which an error frame and a response arrive
  between them.
\<close>

definition example_conn :: Conn where
  "example_conn = (NewConn ''127.0.0.1:4150'' 0 1 2 3)\<lparr>
      netConn := Some False, r_c := Socket, w_c := Socket, wg_c := 2, readLoopRunning := 1,
      written := [Cmd_Identify]\<rparr>"

definition example_tx :: "nat \<Rightarrow> WriterTransaction" where
  "example_tx n = \<lparr>cmd = Cmd_Publish ''events'' [of_nat n], doneChan = Some n,
     FrameType = - 1, Data = [], Error = None, Args = []\<rparr>"

definition example_writer :: Writer where
  "example_writer = snd (connect NewWriter (None, example_conn))"

definition example_events :: "event list" where
  "example_events = [Transaction (example_tx 1) None, Transaction (example_tx 2) None,
     ErrorFrame (bytes_of ''E_BAD_TOPIC''), Transaction (example_tx 3) None,
     Response (bytes_of ''OK'')]"

definition example_result :: Writer where
  "example_result = example_writer\<lparr>
       conn := Some (example_conn\<lparr>written :=
         [Cmd_Identify, cmd (example_tx 1), cmd (example_tx 2), cmd (example_tx 3)]\<rparr>),
       transactions := [example_tx 3],
       resolved := [resolve (example_tx 1) (FrameTypeError, bytes_of ''E_BAD_TOPIC''),
                    resolve (example_tx 2) (FrameTypeResponse, bytes_of ''OK'')],
       delivered := [(1, resolve (example_tx 1) (FrameTypeError, bytes_of ''E_BAD_TOPIC'')),
                    (2, resolve (example_tx 2) (FrameTypeResponse, bytes_of ''OK''))]\<rparr>"

subsection \<open>Reading a run of the cleanup\<close>









definition stopping_writer :: Writer where
  "stopping_writer = example_writer\<lparr>conn := Some (example_conn\<lparr>netConn := Some True\<rparr>),
     stopFlag := 1, exitChan := True, state := StateDisconnected, closeWaiting := True\<rparr>"

subsection \<open>Reading a handshake\<close>

text \<open>
  The frame an upgrade waits for, and the number of upgrades a response grants.
\<close>

definition OK_frame :: read_result where
  "OK_frame = Inr (FrameTypeResponse, bytes_of ''OK'')"

definition granted :: "IdentifyResponse \<Rightarrow> nat" where
  "granted resp = length (filter id [TLSv1 resp, Deflate resp, Snappy resp])"

subsection \<open>A connection to evaluate\<close>

text \<open>
  A server that grants TLS and Deflate, and the Conn after a handshake with it; and
  passes of the read loop: a heartbeat, a message frame, a frame of type 3, a response.
\<close>

definition example_identify_env :: identify_env where
  "example_identify_env =
     \<lparr>identify_cmd = Inr Cmd_Identify, send_res = None,
      unmarshal = (\<lambda>d. Inr \<lparr>MaxRdyCount = 2500, TLSv1 = True, Deflate = True, Snappy = False\<rparr>),
      tls_handshake = None\<rparr>"

definition example_upgraded :: Conn where
  "example_upgraded = (NewConn ''127.0.0.1:4150'' 0 1 2 3)\<lparr>
      netConn := Some False, tlsConn := True, r_c := BufioReader (FlateRW TLSConn),
      w_c := FlateRW TLSConn, flateWriter := True, wg_c := 2, readLoopRunning := 1,
      written := [Cmd_Identify]\<rparr>"

definition heartbeat_pass :: "string option \<Rightarrow> pass_env" where
  "heartbeat_pass res =
     \<lparr>read_res = Inr (FrameTypeResponse, bytes_of ''_heartbeat_''), write_res = res, now = 0\<rparr>"

definition example_msg :: Message where
  "example_msg = \<lparr>Id_msg = Abs_MessageID (replicate 16 7), Body = bytes_of ''hi'',
     Timestamp = 5, Attempts = 1, exitChan_msg = None, cmdChan_msg = None,
     responseChan_msg = None\<rparr>"

definition example_payload :: bytes where
  "example_payload =
     PutUint64 5 @ PutUint16 1 @ Rep_MessageID (Abs_MessageID (replicate 16 7)) @ bytes_of ''hi''"

definition message_pass :: "bytes \<Rightarrow> pass_env" where
  "message_pass data = \<lparr>read_res = Inr (FrameTypeMessage, data), write_res = None, now = 77\<rparr>"

definition unknown_pass :: pass_env where
  "unknown_pass = \<lparr>read_res = Inr (3, []), write_res = None, now = 0\<rparr>"

definition response_pass :: pass_env where
  "response_pass = \<lparr>read_res = Inr (FrameTypeResponse, bytes_of ''OK''), write_res = None, now = 0\<rparr>"

section \<open>Properties of the message codec\<close>

lemma Uint64_list:
  "Uint64 [b0, b1, b2, b3, b4, b5, b6, b7] =
     ucast b7 OR push_bit 8 (ucast b6) OR push_bit 16 (ucast b5) OR
     push_bit 24 (ucast b4) OR push_bit 32 (ucast b3) OR push_bit 40 (ucast b2) OR
     push_bit 48 (ucast b1) OR push_bit 56 (ucast b0)"
  by (simp add: Uint64_def)

lemma ucast_byte64: "(ucast (ucast (x::64 word) :: 8 word) :: 64 word) = x AND mask 8"
  by (rule bit_word_eqI) (auto simp add: bit_simps)

lemma shift_piece64:
  "push_bit k (drop_bit k (v::64 word) AND mask 8) = v AND push_bit k (mask 8)"
  by (rule bit_word_eqI) (auto simp add: bit_simps)

lemma masks64:
  "(mask 8 :: 64 word) OR push_bit 8 (mask 8) OR push_bit 16 (mask 8) OR
   push_bit 24 (mask 8) OR push_bit 32 (mask 8) OR push_bit 40 (mask 8) OR
   push_bit 48 (mask 8) OR push_bit 56 (mask 8) = - 1"
  by (simp add: mask_eq_exp_minus_1 push_bit_eq_mult)

lemma Uint64_PutUint64: "Uint64 (PutUint64 v) = v"
proof -
  have "Uint64 (PutUint64 v) =
      v AND ((mask 8 :: 64 word) OR push_bit 8 (mask 8) OR push_bit 16 (mask 8) OR
      push_bit 24 (mask 8) OR push_bit 32 (mask 8) OR push_bit 40 (mask 8) OR
      push_bit 48 (mask 8) OR push_bit 56 (mask 8))"
    unfolding PutUint64_def Uint64_list
    by (simp only: ucast_byte64 shift_piece64 bit.conj_disj_distrib)
  also have "\<dots> = v"
    by (simp only: masks64) simp
  finally show ?thesis .
qed

lemma Uint16_PutUint16: "Uint16 (PutUint16 v) = v"
  unfolding Uint16_def PutUint16_def
  by (rule bit_word_eqI) (auto simp add: bit_simps)

lemma length_PutUint64: "length (PutUint64 v) = 8"
  by (simp add: PutUint64_def)

lemma length_PutUint16: "length (PutUint16 v) = 2"
  by (simp add: PutUint16_def)

lemma length_Rep_MessageID: "length (Rep_MessageID i) = 16"
  using Rep_MessageID [of i] by simp

lemma ReadFull_append:
  "length p = n \<Longrightarrow> 0 < n \<Longrightarrow> ReadFull (p @ rest) n = Inr (p, rest)"
  by (auto simp add: ReadFull_def)

lemma EncodeBytes_eq:
  "EncodeBytes m =
     Inr (PutUint64 (Timestamp m) @ PutUint16 (Attempts m) @ Rep_MessageID (Id_msg m) @ Body m)"
  by (simp add: EncodeBytes_def Message_Write_def Buffer_Write_def)

lemma DecodeMessage_encoded:
  "DecodeMessage (PutUint64 ts @ PutUint16 at @ Rep_MessageID i @ body) =
     Inr \<lparr>Id_msg = i, Body = body, Timestamp = ts, Attempts = at,
          exitChan_msg = None, cmdChan_msg = None, responseChan_msg = None\<rparr>"
proof -
  have r1: "ReadFull (PutUint64 ts @ (PutUint16 at @ Rep_MessageID i @ body)) 8 =
      Inr (PutUint64 ts, PutUint16 at @ Rep_MessageID i @ body)"
    by (rule ReadFull_append) (simp_all add: length_PutUint64)
  have r2: "ReadFull (PutUint16 at @ (Rep_MessageID i @ body)) 2 =
      Inr (PutUint16 at, Rep_MessageID i @ body)"
    by (rule ReadFull_append) (simp_all add: length_PutUint16)
  have r3: "ReadFull (Rep_MessageID i @ body) MsgIdLength = Inr (Rep_MessageID i, body)"
    by (rule ReadFull_append) (simp_all add: length_Rep_MessageID MsgIdLength_def)
  show ?thesis
    by (simp add: DecodeMessage_def r1 r2 r3 Uint64_PutUint64 Uint16_PutUint16
        Rep_MessageID_inverse)
qed

text \<open>
  Claim C3. Serialising any Message with \<^verbatim>\<open>EncodeBytes\<close> (that is, \<^verbatim>\<open>Write\<close> into a
  buffer) succeeds, and \<^verbatim>\<open>DecodeMessage\<close> of the produced bytes succeeds with a Message
  whose id, body, timestamp and attempts are those of the original.
\<close>

theorem message_roundtrip:
  "(case EncodeBytes m of
      Inl err \<Rightarrow> False
    | Inr bs \<Rightarrow>
        (case DecodeMessage bs of
           Inl err \<Rightarrow> False
         | Inr m' \<Rightarrow>
             Id_msg m' = Id_msg m \<and> Body m' = Body m \<and>
             Timestamp m' = Timestamp m \<and> Attempts m' = Attempts m))"
  by (simp add: EncodeBytes_eq DecodeMessage_encoded)

section \<open>Properties of the router loop\<close>

lemma finish_fields:
  "transactions (finish t w) = transactions w"
  "resolved (finish t w) = resolved w"
  "exitChan (finish t w) = exitChan w"
  "stopFlag (finish t w) = stopFlag w"
  "wg (finish t w) = wg w"
  "state (finish t w) = state w"
  "conn (finish t w) = conn w"
  "concurrentWriters (finish t w) = concurrentWriters w"
  "closeWaiting (finish t w) = closeWaiting w"
  "delivered (finish t w) = delivered w @ deliveries [t]"
  by (simp_all add: finish_def deliveries_def split: option.splits)

lemma Writer_close_fields:
  assumes "Writer_close w = Inr w1"
  shows "transactions w1 = transactions w \<and> resolved w1 = resolved w \<and>
    exitChan w1 = exitChan w \<and> stopFlag w1 = stopFlag w \<and> wg w1 = wg w \<and>
    delivered w1 = delivered w \<and> concurrentWriters w1 = concurrentWriters w \<and>
    state w1 \<noteq> StateConnected"
  using assms
  by (auto simp add: Writer_close_def wg_Wait_reset_def split: if_splits option.splits)

lemma popTransaction_Inr:
  assumes "popTransaction ft d w = Inr w1"
  shows "\<exists>t rest. transactions w = t # rest \<and> transactions w1 = rest \<and>
     resolved w1 = resolved w @ [resolve t (ft, d)] \<and>
     delivered w1 = delivered w @ deliveries [resolve t (ft, d)] \<and>
     exitChan w1 = exitChan w \<and> stopFlag w1 = stopFlag w \<and> wg w1 = wg w \<and>
     concurrentWriters w1 = concurrentWriters w \<and> state w1 = state w \<and> conn w1 = conn w"
  using assms
  by (auto simp add: popTransaction_def resolve_def Let_def finish_fields split: list.splits)

lemma router_step_Transaction:
  assumes "router_step w (Transaction t res) = Inr s"
  shows "\<exists>w1. s = Continue w1 \<and> transactions w1 = transactions w @ [t] \<and>
     resolved w1 = resolved w \<and> delivered w1 = delivered w \<and> exitChan w1 = exitChan w \<and>
     stopFlag w1 = stopFlag w \<and> wg w1 = wg w \<and> concurrentWriters w1 = concurrentWriters w"
  using assms
  by (auto simp add: router_step_def Let_def SendCommand_def
      dest!: Writer_close_fields split: option.splits sum.splits prod.splits)


lemma router_step_frame:
  assumes "router_step w e = Inr s" and "e = Response d \<and> ft = FrameTypeResponse \<or> e = ErrorFrame d \<and> ft = FrameTypeError"
  shows "\<exists>w1 t rest. s = Continue w1 \<and> transactions w = t # rest \<and> transactions w1 = rest \<and>
     resolved w1 = resolved w @ [resolve t (ft, d)] \<and>
     delivered w1 = delivered w @ deliveries [resolve t (ft, d)] \<and>
     exitChan w1 = exitChan w \<and> stopFlag w1 = stopFlag w \<and> wg w1 = wg w \<and>
     concurrentWriters w1 = concurrentWriters w"
  using assms
  by (auto simp add: router_step_def dest!: popTransaction_Inr split: sum.splits)

lemma router_step_other:
  assumes "router_step w e = Inr s" and "e = Heartbeat \<or> e = IOError err \<or> (e = ExitSignal \<and> \<not> exitChan w)"
  shows "\<exists>w1. s = Continue w1 \<and> transactions w1 = transactions w \<and>
     resolved w1 = resolved w \<and> delivered w1 = delivered w \<and> exitChan w1 = exitChan w \<and>
     stopFlag w1 = stopFlag w \<and> wg w1 = wg w \<and> concurrentWriters w1 = concurrentWriters w"
  using assms
  by (auto simp add: router_step_def dest!: Writer_close_fields split: sum.splits)

lemma router_step_exit:
  assumes "exits w e"
  shows "router_step w e = Inr (GotoExit w)"
  using assms by (auto simp add: router_step_def exits_def)


lemma deliveries_single: "deliveries [x] @ deliveries xs = deliveries (x # xs)"
  by (simp add: deliveries_def)

lemma map2_resolve_snoc:
  "map2 resolve ((t # rest) @ xs) (f # fs) = resolve t f # map2 resolve (rest @ xs) fs"
  by simp

lemma router_loop_effect:
  assumes "router_loop w es = Inr (w', b)"
  shows "resolved w' = resolved w @ map2 resolve (transactions w @ enqueued (taken w es)) (frames (taken w es)) \<and>
     transactions w' = drop (length (frames (taken w es))) (transactions w @ enqueued (taken w es)) \<and>
     delivered w' = delivered w @ deliveries (map2 resolve (transactions w @ enqueued (taken w es)) (frames (taken w es))) \<and>
     exitChan w' = exitChan w \<and> stopFlag w' = stopFlag w \<and> wg w' = wg w \<and>
     concurrentWriters w' = concurrentWriters w \<and>
     b = (\<exists>e \<in> set es. exits w e)"
  using assms
proof (induction es arbitrary: w)
  case Nil
  then show ?case by (simp add: taken_def deliveries_def)
next
  case (Cons e es)
  show ?case
  proof (cases "exits w e")
    case True
    with Cons.prems show ?thesis
      by (simp add: router_step_exit taken_def deliveries_def)
  next
    case False
    from Cons.prems obtain s where s: "router_step w e = Inr s"
      by (auto split: sum.splits)
    have tk: "taken w (e # es) = e # taken w es"
      using False by (simp add: taken_def)
    have "\<exists>w1. s = Continue w1 \<and> exitChan w1 = exitChan w \<and> stopFlag w1 = stopFlag w \<and>
        wg w1 = wg w \<and> concurrentWriters w1 = concurrentWriters w \<and>
        resolved w1 @ map2 resolve (transactions w1 @ enqueued (taken w es)) (frames (taken w es)) =
          resolved w @ map2 resolve (transactions w @ enqueued (e # taken w es)) (frames (e # taken w es)) \<and>
        drop (length (frames (taken w es))) (transactions w1 @ enqueued (taken w es)) =
          drop (length (frames (e # taken w es))) (transactions w @ enqueued (e # taken w es)) \<and>
        delivered w1 @ deliveries (map2 resolve (transactions w1 @ enqueued (taken w es)) (frames (taken w es))) =
          delivered w @ deliveries (map2 resolve (transactions w @ enqueued (e # taken w es)) (frames (e # taken w es)))"
    proof (cases e)
      case (Transaction t res)
      from router_step_Transaction [OF s [unfolded Transaction]]
      show ?thesis by (auto simp add: Transaction simp del: drop_append)
    next
      case (Response d)
      from router_step_frame [OF s, of d FrameTypeResponse] Response
      show ?thesis by (auto simp add: deliveries_single simp del: drop_append)
    next
      case (ErrorFrame d)
      from router_step_frame [OF s, of d FrameTypeError] ErrorFrame
      show ?thesis by (auto simp add: deliveries_single simp del: drop_append)
    next
      case Heartbeat
      from router_step_other [OF s] Heartbeat
      show ?thesis by auto
    next
      case (IOError err)
      from router_step_other [OF s, of err] IOError
      show ?thesis by auto
    next
      case CloseSignal
      with False show ?thesis by (simp add: exits_def)
    next
      case ExitSignal
      with False have "\<not> exitChan w" by (simp add: exits_def)
      with router_step_other [OF s] ExitSignal
      show ?thesis by auto
    qed
    then obtain w1 where w1: "s = Continue w1" "exitChan w1 = exitChan w" "stopFlag w1 = stopFlag w"
        "wg w1 = wg w" "concurrentWriters w1 = concurrentWriters w"
        "resolved w1 @ map2 resolve (transactions w1 @ enqueued (taken w es)) (frames (taken w es)) =
          resolved w @ map2 resolve (transactions w @ enqueued (e # taken w es)) (frames (e # taken w es))"
        "drop (length (frames (taken w es))) (transactions w1 @ enqueued (taken w es)) =
          drop (length (frames (e # taken w es))) (transactions w @ enqueued (e # taken w es))"
        "delivered w1 @ deliveries (map2 resolve (transactions w1 @ enqueued (taken w es)) (frames (taken w es))) =
          delivered w @ deliveries (map2 resolve (transactions w @ enqueued (e # taken w es)) (frames (e # taken w es)))"
      by blast
    have same: "taken w1 es = taken w es" "\<And>x. exits w1 x = exits w x"
      using w1 by (simp_all add: taken_def exits_def)
    from Cons.prems s w1 have "router_loop w1 es = Inr (w', b)" by simp
    from Cons.IH [OF this] w1 False show ?thesis
      by (simp add: tk same)
  qed
qed

lemma router_loop_frames_le:
  assumes "router_loop w es = Inr (w', b)"
  shows "length (frames (taken w es)) \<le> length (transactions w @ enqueued (taken w es))"
  using assms
proof (induction es arbitrary: w)
  case Nil
  then show ?case by (simp add: taken_def)
next
  case (Cons e es)
  show ?case
  proof (cases "exits w e")
    case True
    then show ?thesis by (simp add: taken_def)
  next
    case False
    from Cons.prems obtain s where s: "router_step w e = Inr s"
      by (auto split: sum.splits)
    have tk: "taken w (e # es) = e # taken w es"
      using False by (simp add: taken_def)
    have "\<exists>w1. s = Continue w1 \<and> exitChan w1 = exitChan w \<and>
        length (frames (e # taken w es)) + length (transactions w1) =
          length (frames (taken w es)) + length (transactions w) + length (enqueued (e # taken w es)) - length (enqueued (taken w es)) \<and>
        length (enqueued (taken w es)) \<le> length (enqueued (e # taken w es))"
    proof (cases e)
      case (Transaction t res)
      from router_step_Transaction [OF s [unfolded Transaction]]
      show ?thesis by (auto simp add: Transaction)
    next
      case (Response d)
      from router_step_frame [OF s, of d FrameTypeResponse] Response
      show ?thesis by auto
    next
      case (ErrorFrame d)
      from router_step_frame [OF s, of d FrameTypeError] ErrorFrame
      show ?thesis by auto
    next
      case Heartbeat
      from router_step_other [OF s] Heartbeat
      show ?thesis by auto
    next
      case (IOError err)
      from router_step_other [OF s, of err] IOError
      show ?thesis by auto
    next
      case CloseSignal
      with False show ?thesis by (simp add: exits_def)
    next
      case ExitSignal
      with False have "\<not> exitChan w" by (simp add: exits_def)
      with router_step_other [OF s] ExitSignal
      show ?thesis by auto
    qed
    then obtain w1 where w1: "s = Continue w1" "exitChan w1 = exitChan w"
        "length (frames (e # taken w es)) + length (transactions w1) =
          length (frames (taken w es)) + length (transactions w) + length (enqueued (e # taken w es)) - length (enqueued (taken w es))"
        "length (enqueued (taken w es)) \<le> length (enqueued (e # taken w es))"
      by blast
    have same: "taken w1 es = taken w es"
      using w1 by (simp add: taken_def exits_def)
    from Cons.prems s w1 have "router_loop w1 es = Inr (w', b)" by simp
    from Cons.IH [OF this] w1 show ?thesis
      by (simp add: tk same)
  qed
qed

text \<open>
  Claim C1. Whatever events the router loop takes without a panic, from any state: every
  response or error frame it took found a pending transaction, and the transactions
  resolved are, in order, the pending ones followed by those received, each with the
  frame type and payload of the frame at the same position and with a nil error; what
  stays pending is the rest of that sequence. So the k-th frame resolves the k-th
  command sent, however response and error frames are interleaved, and \<^verbatim>\<open>finish\<close>
  hands each to its done channel in that order.
\<close>

theorem fifo_matching:
  assumes "router_loop w es = Inr (w', b)"
  shows "length (frames (taken w es)) \<le> length (transactions w @ enqueued (taken w es)) \<and>
     resolved w' = resolved w @
       map2 resolve (transactions w @ enqueued (taken w es)) (frames (taken w es)) \<and>
     transactions w' =
       drop (length (frames (taken w es))) (transactions w @ enqueued (taken w es)) \<and>
     delivered w' = delivered w @
       deliveries (map2 resolve (transactions w @ enqueued (taken w es)) (frames (taken w es)))"
  using router_loop_effect [OF assms] router_loop_frames_le [OF assms] by simp

lemma example_run:
  "router_loop example_writer example_events = Inr (example_result, False)"
  by (simp add: example_writer_def example_events_def connect_def NewWriter_def router_step_def
      SendCommand_def popTransaction_def finish_def resolve_def Let_def example_tx_def NewConn_def
      example_conn_def example_result_def)

theorem fifo_matching_witness:
  "router_loop example_writer example_events = Inr (example_result, False) \<and>
   resolved example_result =
     [resolve (example_tx 1) (FrameTypeError, bytes_of ''E_BAD_TOPIC''),
      resolve (example_tx 2) (FrameTypeResponse, bytes_of ''OK'')] \<and>
   transactions example_result = [example_tx 3]"
  using fifo_matching [OF example_run] example_run
  by (simp add: example_events_def taken_def exits_def example_writer_def
      connect_def NewWriter_def)

lemma router_step_IndexOutOfRange:
  assumes "router_step w e = Inl IndexOutOfRange"
  shows "transactions w = [] \<and> (\<exists>d. e = Response d \<or> e = ErrorFrame d)"
  using assms
  by (auto simp add: router_step_def popTransaction_def Writer_close_def Let_def SendCommand_def
      split: event.splits option.splits sum.splits list.splits if_splits prod.splits)

lemma router_loop_no_IndexOutOfRange:
  assumes "answers_sent (length (transactions w)) es"
  shows "router_loop w es \<noteq> Inl IndexOutOfRange"
  using assms
proof (induction es arbitrary: w)
  case Nil
  then show ?case by simp
next
  case (Cons e es)
  show ?case
  proof (cases "router_step w e")
    case (Inl p)
    have "p \<noteq> IndexOutOfRange"
    proof
      assume "p = IndexOutOfRange"
      with Inl router_step_IndexOutOfRange [of w e]
      have "transactions w = []" "\<exists>d. e = Response d \<or> e = ErrorFrame d" by auto
      with Cons.prems show False by auto
    qed
    with Inl show ?thesis by simp
  next
    case (Inr s)
    show ?thesis
    proof (cases s)
      case (GotoExit w1)
      with Inr show ?thesis by simp
    next
      case (Continue w1)
      have "answers_sent (length (transactions w1)) es"
      proof (cases e)
        case (Transaction t res)
        from router_step_Transaction [OF Inr [unfolded Transaction]] Continue Cons.prems Transaction
        show ?thesis by auto
      next
        case (Response d)
        from router_step_frame [OF Inr, of d FrameTypeResponse] Response Continue Cons.prems
        show ?thesis by auto
      next
        case (ErrorFrame d)
        from router_step_frame [OF Inr, of d FrameTypeError] ErrorFrame Continue Cons.prems
        show ?thesis by auto
      next
        case Heartbeat
        from Inr Continue Cons.prems Heartbeat show ?thesis
          by (auto simp add: router_step_def)
      next
        case (IOError err)
        from Inr Continue Cons.prems IOError show ?thesis
          by (auto simp add: router_step_def dest!: Writer_close_fields split: sum.splits)
      next
        case CloseSignal
        with Inr Continue show ?thesis by (simp add: router_step_def)
      next
        case ExitSignal
        with Inr Continue Cons.prems show ?thesis
          by (auto simp add: router_step_def split: if_splits)
      qed
      from Cons.IH [OF this] Inr Continue show ?thesis by simp
    qed
  qed
qed

text \<open>
  Claim C10. \<^verbatim>\<open>popTransaction\<close> on an empty pending sequence is an index-out-of-range
  panic, not an error return, and so is a response or an error frame taken by the router
  then; when every frame answers a command sent before it, the router never raises that
  panic.
\<close>

theorem popTransaction_needs_pending:
  "(transactions w = [] \<longrightarrow>
      popTransaction frameType data w = Inl IndexOutOfRange \<and>
      router_loop w (Response data # es) = Inl IndexOutOfRange \<and>
      router_loop w (ErrorFrame data # es) = Inl IndexOutOfRange) \<and>
   (answers_sent (length (transactions w)) es' \<longrightarrow>
      router_loop w es' \<noteq> Inl IndexOutOfRange)"
  using router_loop_no_IndexOutOfRange [of w es']
  by (simp add: popTransaction_def router_step_def)

theorem popTransaction_needs_pending_witness:
  "transactions NewWriter = [] \<and>
   popTransaction FrameTypeResponse (bytes_of ''OK'') NewWriter = Inl IndexOutOfRange \<and>
   router_loop NewWriter [Response (bytes_of ''OK'')] = Inl IndexOutOfRange \<and>
   answers_sent (length (transactions example_writer)) example_events \<and>
   router_loop example_writer example_events \<noteq> Inl IndexOutOfRange"
  using popTransaction_needs_pending [of NewWriter FrameTypeResponse "bytes_of ''OK''" "[]" "[]"]
    popTransaction_needs_pending [of example_writer FrameTypeResponse "[]" "[]" example_events]
  by (simp add: NewWriter_def example_writer_def example_events_def connect_def)

section \<open>Properties of the cleanup\<close>














section \<open>Properties of Stop and connect\<close>







text \<open>
  Claim C8, as the code has it. \<^verbatim>\<open>connect\<close> on a Writer whose state is not Init
  fails and leaves the Writer unchanged: with "stopped" when the Writer has been stopped
  (the stop flag is checked first), with "not connected" otherwise. A \<^verbatim>\<open>connect\<close> that
  succeeds started in Init on a Writer not stopped and ends in Connected, and a further
  \<^verbatim>\<open>connect\<close> on its result fails with "not connected".
\<close>

theorem connect_guard:
  "(state w \<noteq> StateInit \<longrightarrow>
      connect w connecting =
        (Some (if stopFlag w = 1 then ErrStopped else ErrNotConnected), w)) \<and>
   (connect w connecting = (None, w') \<longrightarrow>
      state w = StateInit \<and> state w' = StateConnected \<and> stopFlag w \<noteq> 1 \<and>
      connect w' connecting' = (Some ErrNotConnected, w'))"
  by (auto simp add: connect_def Let_def split: if_splits prod.splits option.splits)

theorem connect_guard_witness:
  "state example_writer \<noteq> StateInit \<and>
   connect example_writer (None, example_conn) = (Some ErrNotConnected, example_writer) \<and>
   connect NewWriter (None, example_conn) = (None, example_writer) \<and>
   state example_writer = StateConnected"
  using connect_guard [of example_writer "(None, example_conn)" example_writer "(None, example_conn)"]
    connect_guard [of NewWriter "(None, example_conn)" example_writer "(None, example_conn)"]
  by (simp add: example_writer_def connect_def NewWriter_def)

text \<open>
  The claim as stated fails on a stopped Writer: between the close of its connection and
  the exit of its router the state is Disconnected, and \<^verbatim>\<open>connect\<close> returns "stopped".
\<close>

theorem connect_guard_counterexample:
  "Writer_close (example_writer\<lparr>stopFlag := 1, exitChan := True\<rparr>) = Inr stopping_writer \<and>
   state stopping_writer \<noteq> StateInit \<and>
   connect stopping_writer (None, example_conn) = (Some ErrStopped, stopping_writer) \<and>
   ErrStopped \<noteq> ErrNotConnected"
  by (simp add: connect_def stopping_writer_def example_writer_def NewWriter_def
      Writer_close_def wg_Wait_reset_def Conn_Close_def example_conn_def)

section \<open>Properties of the handshake\<close>

lemma read_is_OK:
  "(case r of Inl err \<Rightarrow> False | Inr (ft, d) \<Rightarrow> \<not> (ft \<noteq> FrameTypeResponse \<or> d \<noteq> bytes_of ''OK'')) = (r = OK_frame)"
  by (auto simp add: OK_frame_def split: sum.splits)

lemma upgradeTLS_one:
  "upgradeTLS c None reads = (e, c', rest) \<Longrightarrow>
     rest = tl reads \<and> (e = None) = (reads \<noteq> [] \<and> hd reads = OK_frame) \<and>
     c' = c\<lparr>tlsConn := True, r_c := TLSConn, w_c := TLSConn\<rparr>"
  by (auto simp add: upgradeTLS_def ReadUnpackedResponse_def OK_frame_def Let_def
      split: list.splits sum.splits prod.splits if_splits)

lemma upgradeDeflate_one:
  "upgradeDeflate c reads = (e, c', rest) \<Longrightarrow>
     rest = tl reads \<and> (e = None) = (reads \<noteq> [] \<and> hd reads = OK_frame) \<and>
     c' = c\<lparr>r_c := FlateRW (if tlsConn c then TLSConn else Socket), flateWriter := True,
            w_c := FlateRW (if tlsConn c then TLSConn else Socket)\<rparr>"
  by (auto simp add: upgradeDeflate_def ReadUnpackedResponse_def OK_frame_def Let_def
      split: list.splits sum.splits prod.splits if_splits)

lemma upgradeSnappy_one:
  "upgradeSnappy c reads = (e, c', rest) \<Longrightarrow>
     rest = tl reads \<and> (e = None) = (reads \<noteq> [] \<and> hd reads = OK_frame) \<and>
     c' = c\<lparr>r_c := SnappyRW (if tlsConn c then TLSConn else Socket),
            w_c := SnappyRW (if tlsConn c then TLSConn else Socket)\<rparr>"
  by (auto simp add: upgradeSnappy_def ReadUnpackedResponse_def OK_frame_def Let_def
      split: list.splits sum.splits prod.splits if_splits)

lemma take_Suc_replicate:
  "(take (Suc k) xs = replicate (Suc k) a) = (xs \<noteq> [] \<and> hd xs = a \<and> take k (tl xs) = replicate k a)"
  by (cases xs) auto

lemma take_add_replicate:
  "(take (a + b) xs = replicate (a + b) x) =
     (take a xs = replicate a x \<and> take b (drop a xs) = replicate b x)"
proof (induction a arbitrary: xs)
  case 0
  then show ?case by simp
next
  case (Suc a)
  show ?case
  proof (cases xs)
    case Nil
    then show ?thesis by simp
  next
    case (Cons y ys)
    with Suc [of ys] show ?thesis by auto
  qed
qed

lemma stage_one:
  assumes "rest = tl reads" and "(e = None) = (reads \<noteq> [] \<and> hd reads = OK_frame)"
  shows "(e = None) = (take 1 reads = replicate 1 OK_frame) \<and> rest = drop 1 reads"
  using assms by (cases reads) (auto simp add: drop_Suc)

lemma identify_upgrades_result:
  assumes "identify_upgrades c resp None reads = (e, c', rest)"
  shows "(e = None) = (take (granted resp) reads = replicate (granted resp) OK_frame) \<and>
     (e = None \<longrightarrow> rest = drop (granted resp) reads \<and>
        tlsConn c' = (TLSv1 resp \<or> tlsConn c) \<and>
        r_c c' =
          (if Snappy resp then SnappyRW (if tlsConn c' then TLSConn else Socket)
           else if Deflate resp then FlateRW (if tlsConn c' then TLSConn else Socket)
           else if TLSv1 resp then TLSConn else r_c c))"
proof -
  define t1 where "t1 = (if TLSv1 resp then 1 else 0 :: nat)"
  define t2 where "t2 = (if Deflate resp then 1 else 0 :: nat)"
  define t3 where "t3 = (if Snappy resp then 1 else 0 :: nat)"
  have g: "granted resp = t1 + (t2 + t3)"
    by (simp add: granted_def t1_def t2_def t3_def)
  obtain e1 c1 r1 where s1:
    "(if TLSv1 resp then upgradeTLS c None reads else (None, c, reads)) = (e1, c1, r1)"
    by (cases "if TLSv1 resp then upgradeTLS c None reads else (None, c, reads)") auto
  have f1: "(e1 = None) = (take t1 reads = replicate t1 OK_frame) \<and> r1 = drop t1 reads \<and>
      tlsConn c1 = (TLSv1 resp \<or> tlsConn c) \<and> r_c c1 = (if TLSv1 resp then TLSConn else r_c c)"
  proof (cases "TLSv1 resp")
    case True
    with s1 have u: "upgradeTLS c None reads = (e1, c1, r1)" by simp
    from upgradeTLS_one [OF u] stage_one [of r1 reads e1] True show ?thesis
      by (simp add: t1_def)
  next
    case False
    with s1 show ?thesis by (auto simp add: t1_def)
  qed
  obtain e2 c2 r2 where s2:
    "(if Deflate resp then upgradeDeflate c1 r1 else (None, c1, r1)) = (e2, c2, r2)"
    by (cases "if Deflate resp then upgradeDeflate c1 r1 else (None, c1, r1)") auto
  have f2: "(e2 = None) = (take t2 r1 = replicate t2 OK_frame) \<and> r2 = drop t2 r1 \<and>
      tlsConn c2 = tlsConn c1 \<and>
      r_c c2 = (if Deflate resp then FlateRW (if tlsConn c1 then TLSConn else Socket) else r_c c1)"
  proof (cases "Deflate resp")
    case True
    with s2 have u: "upgradeDeflate c1 r1 = (e2, c2, r2)" by simp
    from upgradeDeflate_one [OF u] stage_one [of r2 r1 e2] True show ?thesis
      by (simp add: t2_def)
  next
    case False
    with s2 show ?thesis by (auto simp add: t2_def)
  qed
  obtain e3 c3 r3 where s3:
    "(if Snappy resp then upgradeSnappy c2 r2 else (None, c2, r2)) = (e3, c3, r3)"
    by (cases "if Snappy resp then upgradeSnappy c2 r2 else (None, c2, r2)") auto
  have f3: "(e3 = None) = (take t3 r2 = replicate t3 OK_frame) \<and> r3 = drop t3 r2 \<and>
      tlsConn c3 = tlsConn c2 \<and>
      r_c c3 = (if Snappy resp then SnappyRW (if tlsConn c2 then TLSConn else Socket) else r_c c2)"
  proof (cases "Snappy resp")
    case True
    with s3 have u: "upgradeSnappy c2 r2 = (e3, c3, r3)" by simp
    from upgradeSnappy_one [OF u] stage_one [of r3 r2 e3] True show ?thesis
      by (simp add: t3_def)
  next
    case False
    with s3 show ?thesis by (auto simp add: t3_def)
  qed
  have res: "(e, c', rest) =
      (case e1 of Some err \<Rightarrow> (Some err, c1, r1)
       | None \<Rightarrow> (case e2 of Some err \<Rightarrow> (Some err, c2, r2) | None \<Rightarrow> (e3, c3, r3)))"
  proof (cases e1)
    case (Some err)
    from assms show ?thesis
      unfolding identify_upgrades_def s1 Some by auto
  next
    case None
    note n1 = None
    show ?thesis
    proof (cases e2)
      case (Some err)
      from assms have "(Some err, c2, r2) = (e, c', rest)"
        unfolding identify_upgrades_def s1 n1 by (simp add: s2 Some)
      then show ?thesis using n1 Some by auto
    next
      case None
      from assms have "(e3, c3, r3) = (e, c', rest)"
        unfolding identify_upgrades_def s1 n1 by (simp add: s2 None s3)
      then show ?thesis using n1 None by auto
    qed
  qed
  have split: "(take (granted resp) reads = replicate (granted resp) OK_frame) =
      (take t1 reads = replicate t1 OK_frame \<and> take t2 r1 = replicate t2 OK_frame \<and>
       take t3 r2 = replicate t3 OK_frame)"
    using f1 f2 by (simp add: g take_add_replicate)
  have d: "r3 = drop (granted resp) reads"
    using f1 f2 f3 by (simp add: g ac_simps)
  have tc: "tlsConn c3 = (TLSv1 resp \<or> tlsConn c)"
    using f1 f2 f3 by simp
  have rc: "r_c c3 =
      (if Snappy resp then SnappyRW (if tlsConn c3 then TLSConn else Socket)
       else if Deflate resp then FlateRW (if tlsConn c3 then TLSConn else Socket)
       else if TLSv1 resp then TLSConn else r_c c)"
    using f1 f2 f3 by simp
  show ?thesis
  proof (cases e1)
    case (Some err)
    with res have "e = Some err" by simp
    moreover from Some f1 have "take t1 reads \<noteq> replicate t1 OK_frame" by simp
    ultimately show ?thesis by (simp add: split)
  next
    case None
    note n1 = None
    with f1 have a1: "take t1 reads = replicate t1 OK_frame" by simp
    show ?thesis
    proof (cases e2)
      case (Some err)
      with res n1 have "e = Some err" by simp
      moreover from Some f2 have "take t2 r1 \<noteq> replicate t2 OK_frame" by simp
      ultimately show ?thesis by (simp add: split)
    next
      case None
      with f2 have a2: "take t2 r1 = replicate t2 OK_frame" by simp
      from res n1 None have r: "e = e3" "c' = c3" "rest = r3" by simp_all
      from f3 have "(e3 = None) = (take t3 r2 = replicate t3 OK_frame)" by simp
      with a1 a2 have "(e = None) = (take (granted resp) reads = replicate (granted resp) OK_frame)"
        by (simp add: split r)
      with d tc rc r show ?thesis by simp
    qed
  qed
qed

lemma Connect_identify:
  assumes "identify_cmd env = Inr command" and "send_res env = None"
    and "tls_handshake env = None"
    and "frameType \<noteq> FrameTypeError" and "data = of_char CHR ''{'' # json"
    and "unmarshal env data = Inr resp"
  shows "Connect c None None env (Inr (frameType, data) # reads) =
     (let c2 = c\<lparr>netConn := Some False, r_c := Socket, w_c := Socket,
                 written := written c @ [command], maxRdyCount := MaxRdyCount resp\<rparr> in
      case identify_upgrades c2 resp None reads of
        (Some err, c3, rest) \<Rightarrow> (Inr (Inl (ErrIdentify err)), c3, rest)
      | (None, c3, rest) \<Rightarrow>
          (Inr (Inr (Some resp)),
           c3\<lparr>r_c := BufioReader (r_c c3), wg_c := wg_c c3 + 2, readLoopRunning := 1\<rparr>, rest))"
  using assms
  by (simp add: Connect_def identify_def SendCommand_def ReadUnpackedResponse_def Let_def
      split: prod.splits option.splits)

text \<open>
  Claim C6. When the server has answered the identify command with JSON that grants
  upgrades, the upgrades are applied in the order TLS, Deflate, Snappy, each reads
  exactly one further frame, and the connect attempt succeeds exactly when each of these
  frames is a response with the payload "OK": then the reads taken are one per upgrade
  and the reader stands on the compressed layer over TLS (over the socket without TLS).
  With any other frame, or none, the attempt fails with an identify error.
\<close>

theorem handshake_upgrades_need_OK:
  assumes "identify_cmd env = Inr command" and "send_res env = None"
    and "tls_handshake env = None"
    and "frameType \<noteq> FrameTypeError" and "data = of_char CHR ''{'' # json"
    and "unmarshal env data = Inr resp"
    and "Connect c None None env (Inr (frameType, data) # reads) = (res, c', rest)"
  shows "(res = Inr (Inr (Some resp))) =
       (take (granted resp) reads = replicate (granted resp) OK_frame) \<and>
     (res = Inr (Inr (Some resp)) \<longrightarrow>
        rest = drop (granted resp) reads \<and>
        tlsConn c' = (TLSv1 resp \<or> tlsConn c) \<and>
        r_c c' = BufioReader
          (if Snappy resp then SnappyRW (if tlsConn c' then TLSConn else Socket)
           else if Deflate resp then FlateRW (if tlsConn c' then TLSConn else Socket)
           else if TLSv1 resp then TLSConn else Socket)) \<and>
     (res \<noteq> Inr (Inr (Some resp)) \<longrightarrow> (\<exists>reason. res = Inr (Inl (ErrIdentify reason))))"
proof -
  let ?c2 = "c\<lparr>netConn := Some False, r_c := Socket, w_c := Socket,
                 written := written c @ [command], maxRdyCount := MaxRdyCount resp\<rparr>"
  obtain e c3 r3 where u: "identify_upgrades ?c2 resp None reads = (e, c3, r3)"
    by (cases "identify_upgrades ?c2 resp None reads") auto
  note r = identify_upgrades_result [OF u]
  show ?thesis
  proof (cases e)
    case None
    with assms(7) u have "res = Inr (Inr (Some resp))" "rest = r3"
      "c' = c3\<lparr>r_c := BufioReader (r_c c3), wg_c := wg_c c3 + 2, readLoopRunning := 1\<rparr>"
      unfolding Connect_identify [OF assms(1-6)] by (simp_all add: Let_def)
    with r None show ?thesis by simp
  next
    case (Some err)
    with assms(7) u have "res = Inr (Inl (ErrIdentify err))"
      unfolding Connect_identify [OF assms(1-6)] by (simp add: Let_def)
    with r Some show ?thesis by simp
  qed
qed

lemma example_handshake:
  "Connect (NewConn ''127.0.0.1:4150'' 0 1 2 3) None None example_identify_env
     [Inr (FrameTypeResponse, bytes_of ''{}''), OK_frame, OK_frame] =
     (Inr (Inr (Some \<lparr>MaxRdyCount = 2500, TLSv1 = True, Deflate = True, Snappy = False\<rparr>)),
      example_upgraded, [])"
  by (simp add: Connect_def identify_def identify_upgrades_def upgradeTLS_def upgradeDeflate_def
      SendCommand_def ReadUnpackedResponse_def example_identify_env_def OK_frame_def Let_def
      bytes_of_def FrameTypeResponse_def FrameTypeError_def NewConn_def example_upgraded_def)

lemma example_handshake_refused:
  "Connect (NewConn ''127.0.0.1:4150'' 0 1 2 3) None None example_identify_env
     [Inr (FrameTypeResponse, bytes_of ''{}''), OK_frame, Inr (FrameTypeError, bytes_of ''E_INVALID'')] =
     (Inr (Inl (ErrIdentify ''invalid response from Deflate upgrade'')),
      example_upgraded\<lparr>r_c := FlateRW TLSConn, wg_c := 0, readLoopRunning := 0\<rparr>, [])"
  by (simp add: Connect_def identify_def identify_upgrades_def upgradeTLS_def upgradeDeflate_def
      SendCommand_def ReadUnpackedResponse_def example_identify_env_def OK_frame_def Let_def
      bytes_of_def FrameTypeResponse_def FrameTypeError_def NewConn_def example_upgraded_def)

theorem handshake_upgrades_need_OK_witness:
  "Connect (NewConn ''127.0.0.1:4150'' 0 1 2 3) None None example_identify_env
     [Inr (FrameTypeResponse, bytes_of ''{}''), OK_frame, OK_frame] =
     (Inr (Inr (Some \<lparr>MaxRdyCount = 2500, TLSv1 = True, Deflate = True, Snappy = False\<rparr>)),
      example_upgraded, []) \<and>
   granted \<lparr>MaxRdyCount = 2500, TLSv1 = True, Deflate = True, Snappy = False\<rparr> = 2 \<and>
   r_c example_upgraded = BufioReader (FlateRW TLSConn) \<and>
   Connect (NewConn ''127.0.0.1:4150'' 0 1 2 3) None None example_identify_env
     [Inr (FrameTypeResponse, bytes_of ''{}''), OK_frame, Inr (FrameTypeError, bytes_of ''E_INVALID'')] =
     (Inr (Inl (ErrIdentify ''invalid response from Deflate upgrade'')),
      example_upgraded\<lparr>r_c := FlateRW TLSConn, wg_c := 0, readLoopRunning := 0\<rparr>, [])"
proof -
  let ?resp = "\<lparr>MaxRdyCount = 2500, TLSv1 = True, Deflate = True, Snappy = False\<rparr>"
  have h1: "identify_cmd example_identify_env = Inr Cmd_Identify"
    and h2: "send_res example_identify_env = None"
    and h3: "tls_handshake example_identify_env = None"
    and h6: "unmarshal example_identify_env (bytes_of ''{}'') = Inr ?resp"
    by (simp_all add: example_identify_env_def)
  have h4: "FrameTypeResponse \<noteq> FrameTypeError"
    by (simp add: FrameTypeResponse_def FrameTypeError_def)
  have h5: "bytes_of ''{}'' = of_char CHR ''{'' # bytes_of ''}''"
    by (simp add: bytes_of_def)
  from handshake_upgrades_need_OK [OF h1 h2 h3 h4 h5 h6 example_handshake]
  have "granted ?resp = 2 \<and> r_c example_upgraded = BufioReader (FlateRW TLSConn)"
    by (simp add: granted_def example_upgraded_def)
  with example_handshake example_handshake_refused show ?thesis by simp
qed

section \<open>Properties of the read loop\<close>

lemma frame_types_distinct:
  "FrameTypeResponse \<noteq> FrameTypeError" "FrameTypeResponse \<noteq> FrameTypeMessage"
  "FrameTypeError \<noteq> FrameTypeMessage" "FrameTypeError \<noteq> FrameTypeResponse"
  "FrameTypeMessage \<noteq> FrameTypeResponse" "FrameTypeMessage \<noteq> FrameTypeError"
  by (simp_all add: FrameTypeResponse_def FrameTypeError_def FrameTypeMessage_def)

text \<open>
  Claim C7. On a response frame whose payload is the heartbeat marker the read loop
  calls the heartbeat callback and sends a no-op command with \<^verbatim>\<open>SendCommand\<close>; neither
  the response nor the message callback is called. When the send fails the IO-error
  callback is called and the loop ends with its exit code; otherwise it goes on.
\<close>

theorem heartbeat_answered_with_nop:
  assumes "read_res env = Inr (FrameTypeResponse, bytes_of ''_heartbeat_'')"
  shows "readLoop_body c env =
       (case write_res env of
          None \<Rightarrow>
            Continue (c\<lparr>calls := calls c @ [HeartbeatCB], written := written c @ [Cmd_Nop]\<rparr>)
        | Some err \<Rightarrow>
            GotoExit (c\<lparr>calls := calls c @ [HeartbeatCB, IOErrorCB (ErrorString err)]\<rparr>)) \<and>
     (stopFlag_c c \<noteq> 1 \<longrightarrow>
        readLoop c (env # envs) =
          (case write_res env of
             None \<Rightarrow>
               readLoop
                 (c\<lparr>calls := calls c @ [HeartbeatCB], written := written c @ [Cmd_Nop]\<rparr>) envs
           | Some err \<Rightarrow>
               map_sum id GotoExit (readLoop_exit
                 (c\<lparr>calls := calls c @ [HeartbeatCB, IOErrorCB (ErrorString err)]\<rparr>))))"
  using assms
  by (simp add: readLoop_body_def SendCommand_def Let_def split: option.splits)

theorem heartbeat_answered_with_nop_witness:
  "read_res (heartbeat_pass None) = Inr (FrameTypeResponse, bytes_of ''_heartbeat_'') \<and>
   readLoop_body example_conn (heartbeat_pass None) =
     Continue (example_conn\<lparr>calls := [HeartbeatCB], written := [Cmd_Identify, Cmd_Nop]\<rparr>) \<and>
   stopFlag_c example_conn \<noteq> 1 \<and>
   readLoop example_conn [heartbeat_pass (Some ''broken pipe'')] =
     Inr (GotoExit (example_conn\<lparr>calls := [HeartbeatCB, IOErrorCB (ErrorString ''broken pipe'')],
       readLoopRunning := 0, stopper := True, exitChan_closed := True, wg_c := 2\<rparr>))"
proof -
  have h: "\<And>res. read_res (heartbeat_pass res) = Inr (FrameTypeResponse, bytes_of ''_heartbeat_'')"
    by (simp add: heartbeat_pass_def)
  from heartbeat_answered_with_nop [OF h, of example_conn None "[]"]
    heartbeat_answered_with_nop [OF h, of example_conn "Some ''broken pipe''" "[]"]
  show ?thesis
    by (simp add: heartbeat_pass_def example_conn_def NewConn_def readLoop_exit_def
        Conn_close_def Let_def)
qed

lemma DecodeMessage_Inl: "length data < 26 \<Longrightarrow> \<exists>err. DecodeMessage data = Inl err"
  by (auto simp add: DecodeMessage_def ReadFull_def MsgIdLength_def split: sum.splits prod.splits)

lemma DecodeMessage_Inr:
  "26 \<le> length data \<Longrightarrow> \<exists>msg. DecodeMessage data = Inr msg"
  by (auto simp add: DecodeMessage_def ReadFull_def MsgIdLength_def split: sum.splits prod.splits)

text \<open>
  Claim C9, as the code has it. On a message frame whose payload decodes (26 bytes or
  more) the read loop subtracts one from the ready count, adds one to the messages in
  flight, stores the clock reading as the time of the last message, and then calls the
  message callback with the decoded message; nothing else of the connection changes. A
  message frame whose payload does not decode changes no counter: the IO-error callback
  is called and the loop jumps to its exit.
\<close>

theorem message_frame_counters:
  assumes "read_res env = Inr (FrameTypeMessage, data)"
  shows "readLoop_body c env =
       (case DecodeMessage data of
          Inr msg \<Rightarrow>
            Continue (c\<lparr>rdyCount := rdyCount c - 1,
              messagesInFlight := messagesInFlight c + 1,
              lastMsgTimestamp := now env,
              calls := calls c @ [MessageCB (msg\<lparr>cmdChan_msg := Some (cmdChan c),
                responseChan_msg := Some (finishedMessages c),
                exitChan_msg := Some (exitChan_c c)\<rparr>)]\<rparr>)
        | Inl err \<Rightarrow> GotoExit (c\<lparr>calls := calls c @ [IOErrorCB (ErrorString err)]\<rparr>)) \<and>
     (26 \<le> length data) = (\<exists>msg. DecodeMessage data = Inr msg)"
proof -
  have "(26 \<le> length data) = (\<exists>msg. DecodeMessage data = Inr msg)"
    using DecodeMessage_Inl [of data] DecodeMessage_Inr [of data] by (cases "26 \<le> length data") auto
  with assms show ?thesis
    by (simp add: readLoop_body_def frame_types_distinct Let_def split: sum.splits)
qed


lemma example_payload_decodes: "DecodeMessage example_payload = Inr example_msg"
  by (simp add: example_payload_def example_msg_def DecodeMessage_encoded)

theorem message_frame_counters_witness:
  "read_res (message_pass example_payload) = Inr (FrameTypeMessage, example_payload) \<and>
   readLoop_body example_conn (message_pass example_payload) =
     Continue (example_conn\<lparr>rdyCount := - 1, messagesInFlight := 1, lastMsgTimestamp := 77,
       calls := [MessageCB (example_msg\<lparr>cmdChan_msg := Some 2, responseChan_msg := Some 1,
         exitChan_msg := Some 3\<rparr>)]\<rparr>)"
proof -
  have h: "read_res (message_pass example_payload) = Inr (FrameTypeMessage, example_payload)"
    by (simp add: message_pass_def)
  from message_frame_counters [OF h, of example_conn] h show ?thesis
    by (simp add: example_payload_decodes message_pass_def example_conn_def NewConn_def)
qed

text \<open>
  The claim as stated fails on a message frame with an empty payload: nothing is
  counted and no message is handed over.
\<close>

theorem message_frame_counters_counterexample:
  "read_res (message_pass []) = Inr (FrameTypeMessage, []) \<and>
   readLoop_body example_conn (message_pass []) =
     GotoExit (example_conn\<lparr>calls := [IOErrorCB (ErrorString ''EOF'')]\<rparr>) \<and>
   messagesInFlight (example_conn\<lparr>calls := [IOErrorCB (ErrorString ''EOF'')]\<rparr>) =
     messagesInFlight example_conn \<and>
   messagesInFlight example_conn \<noteq> messagesInFlight example_conn + 1"
  by (simp add: message_pass_def readLoop_body_def frame_types_distinct DecodeMessage_def
      ReadFull_def example_conn_def NewConn_def)

lemma unknown_frame_type_continues:
  assumes "read_res env = Inr (frameType, data)"
    and "frameType \<noteq> FrameTypeResponse" and "frameType \<noteq> FrameTypeError"
    and "frameType \<noteq> FrameTypeMessage"
  shows "readLoop_body c env =
     Continue (c\<lparr>calls := calls c @ [IOErrorCB (ErrUnknownFrameType frameType)]\<rparr>)"
  using assms by (simp add: readLoop_body_def)

text \<open>
  Claim C4 does not hold of the code. After a frame of type 3 the read loop calls the
  IO-error callback and goes on: it takes the next frame and hands it to the response
  callback, and the close is not started. After a message frame that does not decode,
  which reports through the same callback, the loop ends and the close is started.
\<close>

theorem unknown_frame_type_not_fatal:
  "readLoop example_conn [unknown_pass, response_pass] =
     Inr (Continue (example_conn\<lparr>calls :=
       [IOErrorCB (ErrUnknownFrameType 3), ResponseCB (bytes_of ''OK'')]\<rparr>)) \<and>
   readLoop example_conn [message_pass [], response_pass] =
     Inr (GotoExit (example_conn\<lparr>calls := [IOErrorCB (ErrorString ''EOF'')],
       readLoopRunning := 0, stopper := True, exitChan_closed := True, wg_c := 2\<rparr>))"
  by (simp add: unknown_pass_def response_pass_def message_pass_def readLoop_body_def
      frame_types_distinct FrameTypeResponse_def FrameTypeError_def FrameTypeMessage_def
      DecodeMessage_def ReadFull_def bytes_of_def
      example_conn_def NewConn_def readLoop_exit_def Conn_close_def Let_def)

section \<open>Further facts about the examples and the senders\<close>

text \<open>
  The connection of the examples is what \<^verbatim>\<open>Connect\<close> makes of a new Conn when the
  server answers the identify command with a plain "OK".
\<close>

lemma example_conn_connected:
  "Connect (NewConn ''127.0.0.1:4150'' 0 1 2 3) None None example_identify_env
     [Inr (FrameTypeResponse, bytes_of ''OK'')] = (Inr (Inr None), example_conn, [])"
  by (simp add: Connect_def identify_def SendCommand_def ReadUnpackedResponse_def
      example_identify_env_def bytes_of_def FrameTypeResponse_def FrameTypeError_def
      NewConn_def example_conn_def Let_def)

text \<open>
  A call of \<^verbatim>\<open>sendCommandAsync\<close> that is parked holds its increment of the counter of
  concurrent senders; a call that has returned has taken it back.
\<close>

lemma sendCommandAsync_counter:
  assumes "sendCommandAsync w command dc args connecting pick = (out, w')"
  shows "concurrentWriters w' =
     concurrentWriters w + (case out of Failed err \<Rightarrow> 0 | Parked t \<Rightarrow> 1)"
  using assms
  by (auto simp add: sendCommandAsync_def connect_def Let_def
      split: if_splits prod.splits option.splits)

end
